theory Spec2Isabelle
  imports Main "HOL-Library.Word" "HOL-Library.AList"
begin

unbundle bit_operations_syntax

section \<open>Display flags (gobject-list.c, lines 38-62)\<close>

text \<open>
  \<^verbatim>\<open>DisplayFlags\<close> is a C enum used as a bit set; it is modelled as a 32-bit word.
\<close>

type_synonym DisplayFlags = "32 word"

definition DISPLAY_FLAG_NONE :: DisplayFlags where
  "DISPLAY_FLAG_NONE = 0"

definition DISPLAY_FLAG_CREATE :: DisplayFlags where
  "DISPLAY_FLAG_CREATE = 1"

definition DISPLAY_FLAG_REFS :: DisplayFlags where
  "DISPLAY_FLAG_REFS = push_bit 2 1"

definition DISPLAY_FLAG_BACKTRACE :: DisplayFlags where
  "DISPLAY_FLAG_BACKTRACE = push_bit 3 1"

definition DISPLAY_FLAG_ALL :: DisplayFlags where
  "DISPLAY_FLAG_ALL = DISPLAY_FLAG_CREATE OR DISPLAY_FLAG_REFS OR DISPLAY_FLAG_BACKTRACE"

definition DISPLAY_FLAG_DEFAULT :: DisplayFlags where
  "DISPLAY_FLAG_DEFAULT = DISPLAY_FLAG_CREATE"

definition display_flags_map :: "(string \<times> DisplayFlags) list" where
  "display_flags_map =
     [(''none'', DISPLAY_FLAG_NONE),
      (''create'', DISPLAY_FLAG_CREATE),
      (''refs'', DISPLAY_FLAG_REFS),
      (''backtrace'', DISPLAY_FLAG_BACKTRACE),
      (''all'', DISPLAY_FLAG_ALL)]"

section \<open>GLib string helpers used by the filters\<close>

text \<open>
  \<^verbatim>\<open>g_ascii_tolower\<close>: the letters \<^verbatim>\<open>A\<close> to \<^verbatim>\<open>Z\<close> (codes 65 to 90) are moved to
  lower case, every other character is returned as it is.
\<close>

definition g_ascii_tolower :: "char \<Rightarrow> char" where
  "g_ascii_tolower c =
     (if 65 \<le> (of_char c :: nat) \<and> (of_char c :: nat) \<le> 90
      then char_of ((of_char c :: nat) + 32) else c)"

text \<open>
  \<^verbatim>\<open>g_ascii_strcasecmp\<close>: walks both strings while neither has ended, returns the
  difference of the first pair of characters that differ after lower-casing, and
  otherwise the difference of the characters at which the walk stopped (the
  terminating NUL counts as 0).
\<close>

fun g_ascii_strcasecmp :: "string \<Rightarrow> string \<Rightarrow> int" where
  "g_ascii_strcasecmp [] [] = 0"
| "g_ascii_strcasecmp [] (y # ys) = 0 - int (of_char y)"
| "g_ascii_strcasecmp (x # xs) [] = int (of_char x) - 0"
| "g_ascii_strcasecmp (x # xs) (y # ys) =
     (let c1 = int (of_char (g_ascii_tolower x));
          c2 = int (of_char (g_ascii_tolower y))
      in if c1 \<noteq> c2 then c1 - c2 else g_ascii_strcasecmp xs ys)"

text \<open>
  \<^verbatim>\<open>g_strsplit (string, ",", 0)\<close>: the empty string gives the empty vector; any other
  string is cut at every comma, and the piece after the last comma (possibly empty) is the
  last token. \<open>cur\<close> holds the characters of the current piece, newest first.
\<close>

fun strsplit_from :: "string \<Rightarrow> string \<Rightarrow> string list" where
  "strsplit_from cur [] = [rev cur]"
| "strsplit_from cur (c # cs) =
     (if c = CHR '','' then rev cur # strsplit_from [] cs
      else strsplit_from (c # cur) cs)"

definition g_strsplit :: "string \<Rightarrow> string list" where
  "g_strsplit s = (if s = [] then [] else strsplit_from [] s)"

text \<open>
  \<^verbatim>\<open>strncmp (s1, s2, n) == 0\<close>: the first \<open>n\<close> characters agree, where a string that
  ends early must end in both.
\<close>

definition strncmp_eq :: "string \<Rightarrow> string \<Rightarrow> nat \<Rightarrow> bool" where
  "strncmp_eq s1 s2 n = (take n s1 = take n s2)"

section \<open>Process environment and tracker state\<close>

type_synonym environ = "string \<rightharpoonup> string"

definition g_getenv :: "environ \<Rightarrow> string \<Rightarrow> string option" where
  "g_getenv env name = env name"

type_synonym addr = nat

definition NULL :: addr where
  "NULL = 0"

text \<open>
  \<^verbatim>\<open>ObjectData\<close> (lines 64-75) holds three hash tables keyed by object address. The
  tables \<open>objects\<close> and \<open>added\<close> only ever store the marker \<^verbatim>\<open>GUINT_TO_POINTER (TRUE)\<close>;
  \<open>removed\<close> stores a copy of a type name. The two static variables of
  \<^verbatim>\<open>display_filter\<close> (lines 94-95) are part of the state as well. A hash table is an
  association list: its order stands for the table's iteration order.
\<close>

type_synonym 'v GHashTable = "(addr \<times> 'v) list"

record tracker =
  objects :: "unit GHashTable"
  added :: "unit GHashTable"
  removed :: "string GHashTable"
  display_flags :: DisplayFlags
  parsed :: bool

definition g_hash_table_lookup :: "'v GHashTable \<Rightarrow> addr \<Rightarrow> 'v option" where
  "g_hash_table_lookup tbl key = map_of tbl key"

definition g_hash_table_insert :: "'v GHashTable \<Rightarrow> addr \<Rightarrow> 'v \<Rightarrow> 'v GHashTable" where
  "g_hash_table_insert tbl key v = AList.update key v tbl"

definition g_hash_table_remove :: "'v GHashTable \<Rightarrow> addr \<Rightarrow> 'v GHashTable" where
  "g_hash_table_remove tbl key = AList.delete key tbl"

definition g_hash_table_remove_all :: "'v GHashTable \<Rightarrow> 'v GHashTable" where
  "g_hash_table_remove_all tbl = []"

definition g_hash_table_size :: "'v GHashTable \<Rightarrow> nat" where
  "g_hash_table_size tbl = length tbl"

definition table_keys :: "'v GHashTable \<Rightarrow> addr set" where
  "table_keys tbl = fst ` set tbl"

text \<open>
  The state set up once by \<^verbatim>\<open>get_func\<close> (lines 287-290): three empty tables, with the
  static variables of \<^verbatim>\<open>display_filter\<close> at their initializers. The model starts there.
\<close>

definition gobject_list_state :: tracker where
  "gobject_list_state =
     \<lparr>objects = [], added = [], removed = [],
      display_flags = DISPLAY_FLAG_DEFAULT, parsed = False\<rparr>"

section \<open>Display filter (lines 91-132)\<close>

text \<open>The inner loop over \<^verbatim>\<open>display_flags_map\<close>: the first entry whose name matches wins.\<close>

fun lookup_flag :: "(string \<times> DisplayFlags) list \<Rightarrow> string \<Rightarrow> DisplayFlags option" where
  "lookup_flag [] token = None"
| "lookup_flag ((name, flag) # rest) token =
     (if g_ascii_strcasecmp token name = 0 then Some flag else lookup_flag rest token)"

text \<open>The outer loop over the tokens, accumulating into \<^verbatim>\<open>display_flags\<close>.\<close>

fun parse_tokens :: "string list \<Rightarrow> DisplayFlags \<Rightarrow> DisplayFlags" where
  "parse_tokens [] df = df"
| "parse_tokens (token # rest) df =
     parse_tokens rest
       (case lookup_flag display_flags_map token of
          Some flag \<Rightarrow> df OR flag
        | None \<Rightarrow> df)"

definition parse_display :: "environ \<Rightarrow> tracker \<Rightarrow> tracker" where
  "parse_display env st =
     (case g_getenv env ''GOBJECT_LIST_DISPLAY'' of
        None \<Rightarrow> st
      | Some display \<Rightarrow>
          (let tokens = g_strsplit display;
               len = length tokens;
               st1 = (if len > 0 then st\<lparr>display_flags := 0\<rparr> else st)
           in st1\<lparr>display_flags := parse_tokens tokens (display_flags st1)\<rparr>))"

definition display_filter :: "environ \<Rightarrow> DisplayFlags \<Rightarrow> tracker \<Rightarrow> bool \<times> tracker" where
  "display_filter env flags st =
     (let st' = (if \<not> parsed st then (parse_display env st)\<lparr>parsed := True\<rparr> else st)
      in (display_flags st' AND flags \<noteq> 0, st'))"

section \<open>Name filter (lines 134-144)\<close>

text \<open>
  The function reads \<^verbatim>\<open>GOBJECT_LIST_FILTER\<close> and then, at line 139, returns
  \<^verbatim>\<open>FALSE\<close>; the test of the variable and the \<^verbatim>\<open>strncmp\<close> of lines 140-143 come after
  that return. \<open>object_filter_tail\<close> is that remainder.
\<close>

definition object_filter_tail :: "string option \<Rightarrow> string \<Rightarrow> bool" where
  "object_filter_tail flt obj_name =
     (case flt of
        None \<Rightarrow> True
      | Some f \<Rightarrow> strncmp_eq f obj_name (length f))"

definition object_filter :: "environ \<Rightarrow> string \<Rightarrow> bool" where
  "object_filter env obj_name =
     (let flt = g_getenv env ''GOBJECT_LIST_FILTER'' in False)"

section \<open>The host framework as seen by the tracker\<close>

text \<open>
  The tracker reads three things from an object it is handed: the name
  \<^verbatim>\<open>G_OBJECT_TYPE_NAME (obj)\<close>, the name \<^verbatim>\<open>g_type_name (GST_MINI_OBJECT_TYPE (obj))\<close>
  and the field \<^verbatim>\<open>obj->ref_count\<close> (a \<^verbatim>\<open>guint\<close>). The heap gives these readings for
  every address at the moment of a call; it belongs to the host and changes between calls.
\<close>

record gobject =
  object_type_name :: string
  mini_object_type_name :: string
  ref_count :: "32 word"

type_synonym heap = "addr \<Rightarrow> gobject"

definition G_OBJECT_TYPE_NAME :: "heap \<Rightarrow> addr \<Rightarrow> string" where
  "G_OBJECT_TYPE_NAME h obj = object_type_name (h obj)"

definition GST_MINI_OBJECT_TYPE_NAME :: "heap \<Rightarrow> addr \<Rightarrow> string" where
  "GST_MINI_OBJECT_TYPE_NAME h obj = mini_object_type_name (h obj)"

text \<open>
  What a call does to the outside world: the lines it prints, with the values that go into
  them (\<open>Msg\<close> is a fixed text, without its line breaks), and the finalization observers
  it registers with the host (\<^verbatim>\<open>g_object_weak_ref\<close>, \<^verbatim>\<open>gst_mini_object_weak_ref\<close>).
\<close>

datatype effect =
    Msg string
  | Dump_entry addr "32 word"
  | Objects_count nat
  | Removed_entry addr
  | Finalized_line addr
  | Created_line addr
  | Created_mini_line string addr
  | Init_called
  | Init_line addr
  | Backtrace
  | Weak_ref addr

section \<open>Backtrace and dumps (lines 146-242)\<close>

text \<open>
  \<^verbatim>\<open>print_trace\<close>, in the build with libunwind: prints the stack only when the backtrace
  category is enabled. In the build without libunwind the body is empty. Every call site
  has called \<^verbatim>\<open>display_filter\<close> before, so the tracker state after the call is the same
  in both builds.
\<close>

definition print_trace :: "environ \<Rightarrow> tracker \<Rightarrow> effect list \<times> tracker" where
  "print_trace env st =
     (let (disp, st1) = display_filter env DISPLAY_FLAG_BACKTRACE st
      in if \<not> disp then ([], st1) else ([Backtrace], st1))"

text \<open>
  The loop of \<^verbatim>\<open>_dump_object_list\<close> (lines 186-194) over the entries of a table: an entry
  whose key is \<^verbatim>\<open>NULL\<close> or whose reference count reads zero takes the \<^verbatim>\<open>continue\<close>.
\<close>

fun dump_entries :: "heap \<Rightarrow> 'v GHashTable \<Rightarrow> effect list" where
  "dump_entries h [] = []"
| "dump_entries h ((obj, v) # rest) =
     (if obj = NULL \<or> ref_count (h obj) = 0 then dump_entries h rest
      else Dump_entry obj (ref_count (h obj)) # dump_entries h rest)"

definition dump_object_list :: "heap \<Rightarrow> 'v GHashTable \<Rightarrow> effect list" where
  "dump_object_list h hash = dump_entries h hash @ [Objects_count (g_hash_table_size hash)]"

definition sig_usr1_handler :: "heap \<Rightarrow> tracker \<Rightarrow> effect list \<times> tracker" where
  "sig_usr1_handler h st =
     ([Msg ''Living Objects:''] @ dump_object_list h (objects st), st)"

definition print_still_alive :: "string \<Rightarrow> heap \<Rightarrow> tracker \<Rightarrow> effect list \<times> tracker" where
  "print_still_alive prgname h st =
     ([Msg (''Still Alive in '' @ prgname @ '':'')] @ dump_object_list h (objects st), st)"

text \<open>\<^verbatim>\<open>_sig_usr2_handler\<close> (lines 208-232): the check point.\<close>

definition sig_usr2_handler :: "heap \<Rightarrow> tracker \<Rightarrow> effect list \<times> tracker" where
  "sig_usr2_handler h st =
     (let out1 = [Msg ''Added Objects:''] @ dump_object_list h (added st);
          out2 = [Msg ''Removed Objects:''] @ map (\<lambda>(obj, ty). Removed_entry obj) (removed st)
                 @ [Objects_count (g_hash_table_size (removed st))];
          st1 = st\<lparr>added := g_hash_table_remove_all (added st)\<rparr>;
          st2 = st1\<lparr>removed := g_hash_table_remove_all (removed st1)\<rparr>
      in (out1 @ out2 @ [Msg ''Saved new check point''], st2))"

section \<open>Finalization hook (lines 314-341)\<close>

definition object_finalized :: "environ \<Rightarrow> heap \<Rightarrow> addr \<Rightarrow> tracker \<Rightarrow> effect list \<times> tracker" where
  "object_finalized env h obj st =
     (let (disp, st1) = display_filter env DISPLAY_FLAG_CREATE st;
          (out, st2) =
            (if disp then
               (let (tr, s) = print_trace env st1
                in ([Finalized_line obj] @ tr,
                    if g_hash_table_lookup (added s) obj = None
                    then s\<lparr>removed :=
                           g_hash_table_insert (removed s) obj (G_OBJECT_TYPE_NAME h obj)\<rparr>
                    else s))
             else ([], st1));
          st3 = st2\<lparr>objects := g_hash_table_remove (objects st2) obj\<rparr>;
          st4 = st3\<lparr>added := g_hash_table_remove (added st3) obj\<rparr>
      in (out, st4))"

section \<open>Creation entry points (lines 343-400 and 487-560)\<close>

text \<open>
  \<open>obj\<close> is the address the real constructor returned. \<^verbatim>\<open>g_object_new\<close> records it only
  when it is not in \<open>objects\<close> yet and the name filter accepts its type name.
\<close>

definition g_object_new :: "environ \<Rightarrow> heap \<Rightarrow> addr \<Rightarrow> tracker \<Rightarrow> effect list \<times> tracker" where
  "g_object_new env h obj st =
     (let obj_name = G_OBJECT_TYPE_NAME h obj
      in if g_hash_table_lookup (objects st) obj = None \<and> object_filter env obj_name then
           (let (disp, st1) = display_filter env DISPLAY_FLAG_CREATE st;
                (out, st2) =
                  (if disp then
                     (let (tr, s) = print_trace env st1 in ([Created_line obj] @ tr, s))
                   else ([], st1));
                st3 = st2\<lparr>objects := g_hash_table_insert (objects st2) obj ()\<rparr>;
                st4 = st3\<lparr>added := g_hash_table_insert (added st3) obj ()\<rparr>
            in (out @ [Weak_ref obj], st4))
         else ([], st))"

definition new_mini_object :: "environ \<Rightarrow> heap \<Rightarrow> addr \<Rightarrow> tracker \<Rightarrow> effect list \<times> tracker" where
  "new_mini_object env h mini_object st =
     (let (disp, st1) = display_filter env DISPLAY_FLAG_CREATE st;
          (out, st2) =
            (if disp \<and> object_filter env (GST_MINI_OBJECT_TYPE_NAME h mini_object) then
               (let (tr, s) = print_trace env st1
                in ([Created_mini_line (GST_MINI_OBJECT_TYPE_NAME h mini_object) mini_object]
                    @ tr, s))
             else ([], st1));
          st3 = st2\<lparr>objects := g_hash_table_insert (objects st2) mini_object ()\<rparr>;
          st4 = st3\<lparr>added := g_hash_table_insert (added st3) mini_object ()\<rparr>
      in (out @ [Weak_ref mini_object], st4))"

definition gst_mini_object_init :: "environ \<Rightarrow> heap \<Rightarrow> addr \<Rightarrow> tracker \<Rightarrow> effect list \<times> tracker" where
  "gst_mini_object_init env h mini_object st =
     (let (disp, st1) = display_filter env DISPLAY_FLAG_CREATE st
      in if disp \<and> object_filter env (GST_MINI_OBJECT_TYPE_NAME h mini_object) then
           (let (tr, st2) = print_trace env st1;
                st3 = st2\<lparr>objects := g_hash_table_insert (objects st2) mini_object ()\<rparr>;
                st4 = st3\<lparr>added := g_hash_table_insert (added st3) mini_object ()\<rparr>
            in ([Init_called, Init_line mini_object] @ tr @ [Weak_ref mini_object], st4))
         else ([Init_called], st1))"

section \<open>Runs of the tracker\<close>

text \<open>
  An event is one call into the tracker: a creation entry point returning an address, the
  host firing the finalization hook for an address, or a signal. Each event comes with the
  heap as it is at that moment. The wrappers of the reference-count functions
  (lines 402-458 and 562-596) ask \<^verbatim>\<open>object_filter\<close> first and touch neither the tables
  nor the display statics; they are not events here.
\<close>

datatype event =
    G_object_new addr
  | New_mini_object addr
  | Gst_mini_object_init addr
  | Object_finalized addr
  | Sig_usr1
  | Sig_usr2

fun step :: "environ \<Rightarrow> heap \<times> event \<Rightarrow> tracker \<Rightarrow> effect list \<times> tracker" where
  "step env (h, G_object_new obj) st = g_object_new env h obj st"
| "step env (h, New_mini_object obj) st = new_mini_object env h obj st"
| "step env (h, Gst_mini_object_init obj) st = gst_mini_object_init env h obj st"
| "step env (h, Object_finalized obj) st = object_finalized env h obj st"
| "step env (h, Sig_usr1) st = sig_usr1_handler h st"
| "step env (h, Sig_usr2) st = sig_usr2_handler h st"

fun run :: "environ \<Rightarrow> (heap \<times> event) list \<Rightarrow> tracker \<Rightarrow> effect list \<times> tracker" where
  "run env [] st = ([], st)"
| "run env (e # es) st =
     (let (out1, st1) = step env e st;
          (out2, st2) = run env es st1
      in (out1 @ out2, st2))"

section \<open>Sample inputs\<close>

text \<open>
  Heaps in which every object reads as type \<open>Foo\<close>, respectively \<open>Bar\<close>, with one
  reference, and one in which object 5 reads a reference count of zero; the environment
  with nothing set, the one asking for \<^verbatim>\<open>refs\<close> only, and display configurations with
  an unknown token: before \<^verbatim>\<open>ALL\<close>, alone, and between two known tokens; also the empty
  configuration and the one with the two known tokens only.
\<close>

definition heap_foo :: heap where
  "heap_foo = (\<lambda>_. \<lparr>object_type_name = ''Foo'', mini_object_type_name = ''Foo'', ref_count = 1\<rparr>)"

definition heap_bar :: heap where
  "heap_bar = (\<lambda>_. \<lparr>object_type_name = ''Bar'', mini_object_type_name = ''Bar'', ref_count = 1\<rparr>)"

definition heap_mixed :: heap where
  "heap_mixed = (\<lambda>a. \<lparr>object_type_name = ''Foo'', mini_object_type_name = ''Foo'',
                        ref_count = (if a = 5 then 0 else 2)\<rparr>)"

definition env_default :: environ where
  "env_default = Map.empty"

definition env_refs :: environ where
  "env_refs = [''GOBJECT_LIST_DISPLAY'' \<mapsto> ''refs'']"

definition env_bogus_all :: environ where
  "env_bogus_all = [''GOBJECT_LIST_DISPLAY'' \<mapsto> ''bogus,ALL'']"

definition env_bogus :: environ where
  "env_bogus = [''GOBJECT_LIST_DISPLAY'' \<mapsto> ''bogus'']"

definition env_empty_display :: environ where
  "env_empty_display = [''GOBJECT_LIST_DISPLAY'' \<mapsto> '''']"

definition env_create_bogus_refs :: environ where
  "env_create_bogus_refs = [''GOBJECT_LIST_DISPLAY'' \<mapsto> ''create,bogus,refs'']"

definition env_create_refs :: environ where
  "env_create_refs = [''GOBJECT_LIST_DISPLAY'' \<mapsto> ''create,refs'']"

section \<open>Basic facts about the operations\<close>

lemmas flag_defs =
  DISPLAY_FLAG_NONE_def DISPLAY_FLAG_CREATE_def DISPLAY_FLAG_REFS_def
  DISPLAY_FLAG_BACKTRACE_def DISPLAY_FLAG_ALL_def DISPLAY_FLAG_DEFAULT_def

lemmas table_defs =
  g_hash_table_lookup_def g_hash_table_insert_def g_hash_table_remove_def
  g_hash_table_remove_all_def g_hash_table_size_def

lemmas eval_defs =
  flag_defs table_defs g_getenv_def gobject_list_state_def g_strsplit_def g_ascii_tolower_def
  display_flags_map_def display_filter_def parse_display_def print_trace_def object_filter_def
  object_finalized_def new_mini_object_def g_object_new_def gst_mini_object_init_def
  sig_usr1_handler_def sig_usr2_handler_def dump_object_list_def
  G_OBJECT_TYPE_NAME_def GST_MINI_OBJECT_TYPE_NAME_def NULL_def
  heap_foo_def heap_bar_def env_default_def env_refs_def Let_def

subsection \<open>The display filter only touches its two static variables\<close>

lemma parse_display_tables [simp]:
  "objects (parse_display env st) = objects st"
  "added (parse_display env st) = added st"
  "removed (parse_display env st) = removed st"
  "parsed (parse_display env st) = parsed st"
  by (simp_all add: parse_display_def Let_def split: option.splits)

lemma display_filter_tables [simp]:
  "objects (snd (display_filter env f st)) = objects st"
  "added (snd (display_filter env f st)) = added st"
  "removed (snd (display_filter env f st)) = removed st"
  by (simp_all add: display_filter_def Let_def)

lemma display_filter_parsed [simp]: "parsed (snd (display_filter env f st))"
  by (simp add: display_filter_def Let_def)

lemma display_filter_memo:
  "parsed st \<Longrightarrow> display_filter env f st = (display_flags st AND f \<noteq> 0, st)"
  by (simp add: display_filter_def)

lemma display_filter_first:
  assumes "\<not> parsed st"
  shows "display_flags (snd (display_filter env f st)) =
     (case g_getenv env ''GOBJECT_LIST_DISPLAY'' of
        None \<Rightarrow> display_flags st
      | Some d \<Rightarrow> if g_strsplit d = [] then display_flags st
                  else parse_tokens (g_strsplit d) 0)"
  using assms
  by (simp add: display_filter_def parse_display_def Let_def split: option.splits)

lemma display_filter_fst:
  "fst (display_filter env f st) = (display_flags (snd (display_filter env f st)) AND f \<noteq> 0)"
  "snd (display_filter env f st) = snd (display_filter env g st)"
  by (simp_all add: display_filter_def Let_def)

lemma print_trace_tables [simp]:
  "objects (snd (print_trace env st)) = objects st"
  "added (snd (print_trace env st)) = added st"
  "removed (snd (print_trace env st)) = removed st"
  by (simp_all add: print_trace_def split_beta Let_def)

subsection \<open>What each call does to the three tables\<close>

lemma object_finalized_objects:
  "objects (snd (object_finalized env h obj st)) = AList.delete obj (objects st)"
  by (simp add: object_finalized_def split_beta Let_def table_defs)

lemma object_finalized_added:
  "added (snd (object_finalized env h obj st)) = AList.delete obj (added st)"
  by (simp add: object_finalized_def split_beta Let_def table_defs)

lemma object_finalized_removed:
  "removed (snd (object_finalized env h obj st)) =
     (if fst (display_filter env DISPLAY_FLAG_CREATE st) \<and> map_of (added st) obj = None
      then AList.update obj (G_OBJECT_TYPE_NAME h obj) (removed st)
      else removed st)"
  by (simp add: object_finalized_def split_beta Let_def table_defs)

lemma new_mini_object_tables:
  "objects (snd (new_mini_object env h obj st)) = AList.update obj () (objects st)"
  "added (snd (new_mini_object env h obj st)) = AList.update obj () (added st)"
  "removed (snd (new_mini_object env h obj st)) = removed st"
  by (simp_all add: new_mini_object_def split_beta Let_def table_defs)

lemma g_object_new_noop: "g_object_new env h obj st = ([], st)"
  by (simp add: g_object_new_def object_filter_def)

lemma gst_mini_object_init_tables:
  "objects (snd (gst_mini_object_init env h obj st)) = objects st"
  "added (snd (gst_mini_object_init env h obj st)) = added st"
  "removed (snd (gst_mini_object_init env h obj st)) = removed st"
  by (simp_all add: gst_mini_object_init_def object_filter_def split_beta Let_def)

lemma sig_usr2_handler_tables:
  "objects (snd (sig_usr2_handler h st)) = objects st"
  "added (snd (sig_usr2_handler h st)) = []"
  "removed (snd (sig_usr2_handler h st)) = []"
  by (simp_all add: sig_usr2_handler_def Let_def table_defs)

lemma sig_usr1_handler_state: "snd (sig_usr1_handler h st) = st"
  by (simp add: sig_usr1_handler_def)

lemma sig_usr2_handler_output:
  "fst (sig_usr2_handler h st) =
     Msg ''Added Objects:'' # dump_entries h (added st)
     @ [Objects_count (length (added st)), Msg ''Removed Objects:'']
     @ map (\<lambda>(obj, ty). Removed_entry obj) (removed st)
     @ [Objects_count (length (removed st)), Msg ''Saved new check point'']"
  by (simp add: sig_usr2_handler_def dump_object_list_def g_hash_table_size_def Let_def)

lemma run_append:
  "run env (xs @ ys) st =
     (fst (run env xs st) @ fst (run env ys (snd (run env xs st))),
      snd (run env ys (snd (run env xs st))))"
  by (induction xs arbitrary: st) (simp_all add: split_beta Let_def)

lemma run_Cons_snd: "snd (run env (e # es) st) = snd (run env es (snd (step env e st)))"
  by (simp add: split_beta Let_def)


subsection \<open>Keys of the tables\<close>

lemma table_keys_insert [simp]:
  "table_keys (g_hash_table_insert tbl k v) = insert k (table_keys tbl)"
  by (simp add: table_keys_def g_hash_table_insert_def dom_update)

lemma table_keys_remove [simp]:
  "table_keys (g_hash_table_remove tbl k) = table_keys tbl - {k}"
proof -
  have "set (map fst (AList.delete k tbl)) = set (map fst tbl) - {k}"
    by (simp add: delete_keys)
  then show ?thesis
    by (simp add: table_keys_def g_hash_table_remove_def)
qed

lemma table_keys_Nil [simp]: "table_keys [] = {}"
  by (simp add: table_keys_def)

lemma lookup_None_iff:
  "g_hash_table_lookup tbl k = None \<longleftrightarrow> k \<notin> table_keys tbl"
  by (simp add: g_hash_table_lookup_def table_keys_def map_of_eq_None_iff)

lemma op_keys:
  "table_keys (objects (snd (g_object_new env h p st))) = table_keys (objects st)"
  "table_keys (added (snd (g_object_new env h p st))) = table_keys (added st)"
  "table_keys (objects (snd (new_mini_object env h p st))) = insert p (table_keys (objects st))"
  "table_keys (added (snd (new_mini_object env h p st))) = insert p (table_keys (added st))"
  "table_keys (objects (snd (gst_mini_object_init env h p st))) = table_keys (objects st)"
  "table_keys (added (snd (gst_mini_object_init env h p st))) = table_keys (added st)"
  "table_keys (objects (snd (object_finalized env h p st))) = table_keys (objects st) - {p}"
  "table_keys (added (snd (object_finalized env h p st))) = table_keys (added st) - {p}"
  "table_keys (objects (snd (sig_usr1_handler h st))) = table_keys (objects st)"
  "table_keys (added (snd (sig_usr1_handler h st))) = table_keys (added st)"
  "table_keys (objects (snd (sig_usr2_handler h st))) = table_keys (objects st)"
  "table_keys (added (snd (sig_usr2_handler h st))) = {}"
  using table_keys_insert [of _ p "()"] table_keys_remove [of _ p]
  by (simp_all add: g_object_new_noop new_mini_object_tables gst_mini_object_init_tables
      object_finalized_objects object_finalized_added sig_usr1_handler_state
      sig_usr2_handler_tables g_hash_table_insert_def g_hash_table_remove_def)

lemma step_added_subset:
  assumes "table_keys (added st) \<subseteq> table_keys (objects st)"
  shows "table_keys (added (snd (step env e st))) \<subseteq> table_keys (objects (snd (step env e st)))"
proof (cases e)
  case (Pair h ev)
  show ?thesis
    using assms unfolding Pair by (cases ev) (auto simp add: op_keys)
qed

lemma run_added_subset:
  "table_keys (added st) \<subseteq> table_keys (objects st) \<Longrightarrow>
   table_keys (added (snd (run env evs st))) \<subseteq> table_keys (objects (snd (run env evs st)))"
proof (induction evs arbitrary: st)
  case Nil
  then show ?case by simp
next
  case (Cons e evs)
  from Cons.prems have "table_keys (added (snd (step env e st)))
      \<subseteq> table_keys (objects (snd (step env e st)))"
    by (rule step_added_subset)
  then show ?case
    using Cons.IH by (simp only: run_Cons_snd)
qed

lemma mid_keeps_added:
  assumes "p \<in> table_keys (added st)"
    and "\<forall>e\<in>set mid. snd e \<noteq> Sig_usr2 \<and> snd e \<noteq> Object_finalized p"
  shows "p \<in> table_keys (added (snd (run env mid st)))"
  using assms
proof (induction mid arbitrary: st)
  case Nil
  then show ?case by simp
next
  case (Cons e mid)
  obtain h ev where e: "e = (h, ev)" by (cases e)
  from Cons.prems e have ev: "ev \<noteq> Sig_usr2" "ev \<noteq> Object_finalized p" by auto
  have "p \<in> table_keys (added (snd (step env e st)))"
    using Cons.prems(1) ev unfolding e by (cases ev) (auto simp add: op_keys)
  moreover from Cons.prems(2)
  have "\<forall>e\<in>set mid. snd e \<noteq> Sig_usr2 \<and> snd e \<noteq> Object_finalized p" by simp
  ultimately show ?case
    using Cons.IH by (simp only: run_Cons_snd)
qed

lemma finalize_of_added:
  assumes "p \<in> table_keys (added st)"
  shows "removed (snd (object_finalized env h p st)) = removed st"
  using assms by (simp add: object_finalized_removed table_keys_def map_of_eq_None_iff)

lemma set_update_subset: "set (AList.update k v al) \<subseteq> insert (k, v) (set al)"
  by (induction al) auto

lemma step_removed_origin:
  assumes "(p, name) \<in> set (removed (snd (step env e st)))"
  shows "(p, name) \<in> set (removed st)
         \<or> (\<exists>h. e = (h, Object_finalized p) \<and> name = G_OBJECT_TYPE_NAME h p)"
proof -
  obtain h ev where e: "e = (h, ev)" by (cases e)
  show ?thesis
  proof (cases ev)
    case (Object_finalized q)
    from assms have "(p, name) \<in> insert (q, G_OBJECT_TYPE_NAME h q) (set (removed st))"
      using set_update_subset [of q "G_OBJECT_TYPE_NAME h q" "removed st"]
      by (auto simp add: e Object_finalized object_finalized_removed split: if_splits)
    then show ?thesis
      by (auto simp add: e Object_finalized)
  qed (use assms in \<open>simp_all add: e g_object_new_noop new_mini_object_tables
        gst_mini_object_init_tables sig_usr1_handler_state sig_usr2_handler_tables\<close>)
qed

lemma run_removed_origin:
  "(p, name) \<in> set (removed (snd (run env evs st))) \<Longrightarrow>
   (p, name) \<in> set (removed st)
   \<or> (\<exists>h. (h, Object_finalized p) \<in> set evs \<and> name = G_OBJECT_TYPE_NAME h p)"
proof (induction evs arbitrary: st)
  case Nil
  then show ?case by simp
next
  case (Cons e evs)
  from Cons.prems have "(p, name) \<in> set (removed (snd (run env evs (snd (step env e st)))))"
    by (simp only: run_Cons_snd)
  from Cons.IH [OF this] show ?case
  proof
    assume "(p, name) \<in> set (removed (snd (step env e st)))"
    from step_removed_origin [OF this] show ?thesis by auto
  next
    assume "\<exists>h. (h, Object_finalized p) \<in> set evs \<and> name = G_OBJECT_TYPE_NAME h p"
    then show ?thesis by auto
  qed
qed



subsection \<open>Tokens of the display configuration\<close>

lemma lookup_flag_None_iff:
  "lookup_flag m t = None \<longleftrightarrow> (\<forall>(name, flag)\<in>set m. g_ascii_strcasecmp t name \<noteq> 0)"
  by (induction m t rule: lookup_flag.induct) auto

lemma strsplit_from_nonempty: "strsplit_from cur s \<noteq> []"
  by (induction cur s rule: strsplit_from.induct) simp_all

lemma g_strsplit_nonempty: "d \<noteq> [] \<Longrightarrow> g_strsplit d \<noteq> []"
  by (simp add: g_strsplit_def strsplit_from_nonempty)

lemma parse_tokens_unrecognized:
  "\<forall>t\<in>set ts. \<forall>(name, flag)\<in>set display_flags_map. g_ascii_strcasecmp t name \<noteq> 0 \<Longrightarrow>
   parse_tokens ts df = df"
proof (induction ts arbitrary: df)
  case Nil
  show ?case by simp
next
  case (Cons t ts)
  from Cons.prems have "lookup_flag display_flags_map t = None"
    by (simp add: lookup_flag_None_iff)
  with Cons show ?case by simp
qed

lemma tolower_names [simp]:
  "g_ascii_tolower CHR ''n'' = CHR ''n''"
  "g_ascii_tolower CHR ''c'' = CHR ''c''"
  "g_ascii_tolower CHR ''r'' = CHR ''r''"
  "g_ascii_tolower CHR ''b'' = CHR ''b''"
  "g_ascii_tolower CHR ''a'' = CHR ''a''"
  by (simp_all add: g_ascii_tolower_def)

lemma strcasecmp_all_first:
  assumes "g_ascii_strcasecmp t ''all'' = 0"
  shows "\<exists>x xs. t = x # xs \<and> int (of_char (g_ascii_tolower x)) = 97"
proof (cases t)
  case Nil
  with assms show ?thesis by simp
next
  case (Cons x xs)
  with assms show ?thesis
    by (simp add: Let_def split: if_splits)
qed

lemma lookup_flag_all:
  assumes "g_ascii_strcasecmp t ''all'' = 0"
  shows "lookup_flag display_flags_map t = Some DISPLAY_FLAG_ALL"
proof -
  from strcasecmp_all_first [OF assms] obtain x xs
    where t: "t = x # xs" and x: "int (of_char (g_ascii_tolower x)) = 97" by blast
  show ?thesis
    using assms x unfolding t display_flags_map_def
    by (simp add: Let_def)
qed

lemma lookup_flag_within_all:
  assumes "lookup_flag display_flags_map t = Some f"
  shows "f OR DISPLAY_FLAG_ALL = DISPLAY_FLAG_ALL"
  using assms
  by (auto simp add: display_flags_map_def flag_defs split: if_splits)

lemma parse_tokens_within_all:
  "df OR DISPLAY_FLAG_ALL = DISPLAY_FLAG_ALL \<Longrightarrow>
   parse_tokens ts df OR DISPLAY_FLAG_ALL = DISPLAY_FLAG_ALL"
proof (induction ts arbitrary: df)
  case Nil
  then show ?case by simp
next
  case (Cons t ts)
  show ?case
  proof (cases "lookup_flag display_flags_map t")
    case None
    with Cons show ?thesis by simp
  next
    case (Some f)
    have "(df OR f) OR DISPLAY_FLAG_ALL = DISPLAY_FLAG_ALL"
      using Cons.prems lookup_flag_within_all [OF Some]
      by (simp add: or.assoc)
    with Cons.IH Some show ?thesis by simp
  qed
qed

lemma parse_tokens_from_all:
  "parse_tokens ts DISPLAY_FLAG_ALL = DISPLAY_FLAG_ALL"
proof (induction ts)
  case Nil
  show ?case by simp
next
  case (Cons t ts)
  show ?case
  proof (cases "lookup_flag display_flags_map t")
    case None
    with Cons show ?thesis by simp
  next
    case (Some f)
    have "DISPLAY_FLAG_ALL OR f = DISPLAY_FLAG_ALL"
      using lookup_flag_within_all [OF Some] by (simp add: or.commute)
    with Cons Some show ?thesis by simp
  qed
qed

lemma parse_tokens_all:
  assumes "\<exists>t\<in>set ts. g_ascii_strcasecmp t ''all'' = 0"
    and "df OR DISPLAY_FLAG_ALL = DISPLAY_FLAG_ALL"
  shows "parse_tokens ts df = DISPLAY_FLAG_ALL"
  using assms
proof (induction ts arbitrary: df)
  case Nil
  then show ?case by simp
next
  case (Cons t ts)
  show ?case
  proof (cases "g_ascii_strcasecmp t ''all'' = 0")
    case True
    then have "lookup_flag display_flags_map t = Some DISPLAY_FLAG_ALL"
      by (rule lookup_flag_all)
    moreover have "df OR DISPLAY_FLAG_ALL = DISPLAY_FLAG_ALL" by (rule Cons.prems(2))
    ultimately show ?thesis by (simp add: parse_tokens_from_all)
  next
    case False
    with Cons.prems(1) have rest: "\<exists>t\<in>set ts. g_ascii_strcasecmp t ''all'' = 0" by simp
    show ?thesis
    proof (cases "lookup_flag display_flags_map t")
      case None
      with Cons.IH [OF rest Cons.prems(2)] show ?thesis by simp
    next
      case (Some f)
      have "(df OR f) OR DISPLAY_FLAG_ALL = DISPLAY_FLAG_ALL"
        using Cons.prems(2) lookup_flag_within_all [OF Some] by (simp add: or.assoc)
      from Cons.IH [OF rest this] Some show ?thesis by simp
    qed
  qed
qed

lemma parse_tokens_skip:
  "lookup_flag display_flags_map t = None \<Longrightarrow>
   parse_tokens (pre @ t # post) df = parse_tokens (pre @ post) df"
  by (induction pre arbitrary: df) simp_all

subsection \<open>Dumps\<close>

lemma dump_entries_filter:
  "dump_entries h tbl =
     map (\<lambda>(obj, v). Dump_entry obj (ref_count (h obj)))
       (filter (\<lambda>(obj, v). obj \<noteq> NULL \<and> ref_count (h obj) \<noteq> 0) tbl)"
  by (induction h tbl rule: dump_entries.induct) simp_all

subsection \<open>Where the finalization observers are registered\<close>

lemma dump_entries_no_weak_ref: "Weak_ref p \<notin> set (dump_entries h tbl)"
  by (induction h tbl rule: dump_entries.induct) simp_all

lemma hook_registered_added:
  assumes "Weak_ref p \<in> set (fst (step env c st))"
  shows "p \<in> table_keys (added (snd (step env c st)))"
proof -
  obtain h ev where c: "c = (h, ev)" by (cases c)
  show ?thesis
  proof (cases ev)
    case (G_object_new q)
    with assms c show ?thesis by (simp add: g_object_new_noop)
  next
    case (New_mini_object q)
    with assms c have "q = p"
      by (simp add: new_mini_object_def object_filter_def split_beta Let_def)
    with c New_mini_object show ?thesis by (simp add: op_keys)
  next
    case (Gst_mini_object_init q)
    with assms c show ?thesis
      by (simp add: gst_mini_object_init_def object_filter_def split_beta Let_def)
  next
    case (Object_finalized q)
    with assms c show ?thesis
      by (simp add: object_finalized_def print_trace_def split_beta Let_def split: if_splits)
  next
    case Sig_usr1
    with assms c show ?thesis
      by (simp add: sig_usr1_handler_def dump_object_list_def dump_entries_no_weak_ref)
  next
    case Sig_usr2
    with assms c show ?thesis
      by (auto simp add: sig_usr2_handler_output dump_entries_no_weak_ref)
  qed
qed

lemma first_hook_firing_keeps_removed:
  assumes "Weak_ref p \<in> set (fst (step env c st))"
    and "\<forall>e\<in>set mid. snd e \<noteq> Sig_usr2 \<and> snd e \<noteq> Object_finalized p"
  shows "removed (snd (run env (c # mid @ [(h1, Object_finalized p)]) st))
           = removed (snd (run env (c # mid) st))
         \<and> p \<notin> table_keys (added (snd (run env (c # mid @ [(h1, Object_finalized p)]) st)))"
proof -
  let ?s1 = "snd (step env c st)"
  let ?s2 = "snd (run env mid ?s1)"
  have "p \<in> table_keys (added ?s1)"
    using assms(1) by (rule hook_registered_added)
  then have in_added: "p \<in> table_keys (added ?s2)"
    using assms(2) by (rule mid_keeps_added)
  have full: "snd (run env (c # mid @ [(h1, Object_finalized p)]) st)
      = snd (object_finalized env h1 p ?s2)"
    by (simp add: run_append split_beta Let_def)
  have part: "snd (run env (c # mid) st) = ?s2"
    by (simp add: split_beta Let_def)
  have "removed (snd (object_finalized env h1 p ?s2)) = removed ?s2"
    using in_added by (rule finalize_of_added)
  moreover have "p \<notin> table_keys (added (snd (object_finalized env h1 p ?s2)))"
    by (simp add: op_keys)
  ultimately show ?thesis
    unfolding full part by simp
qed

section \<open>The claims\<close>

subsection \<open>Name filter\<close>

text \<open>
  C1. The Name Filter should accept every type name when \<^verbatim>\<open>GOBJECT_LIST_FILTER\<close> is unset
  and otherwise accept exactly the names that start with the configured string. The code
  returns \<^verbatim>\<open>FALSE\<close> at line 139 before it looks at the variable: with the variable unset
  and the name \<open>GstBuffer\<close> the filter answers no, while the statements after the return
  (lines 140-143) would have answered yes.
\<close>

theorem object_filter_rejects_when_unset:
  "object_filter env_default ''GstBuffer'' = False
   \<and> object_filter_tail (g_getenv env_default ''GOBJECT_LIST_FILTER'') ''GstBuffer'' = True"
  by (simp add: object_filter_def object_filter_tail_def g_getenv_def env_default_def)

subsection \<open>Finalization hook\<close>

text \<open>
  C2. The hook should insert an identity that is not in the Added-Delta into the
  Removed-Delta whatever the display categories are. In the code the insertion sits inside
  the branch guarded by \<^verbatim>\<open>display_filter (DISPLAY_FLAG_CREATE)\<close>: with
  \<^verbatim>\<open>GOBJECT_LIST_DISPLAY=refs\<close>, finalizing object 7, live and not in the Added-Delta,
  removes it from the Live Set and leaves the Removed-Delta empty.
\<close>

theorem object_finalized_refs_only_drops_removed:
  "g_hash_table_lookup (added (gobject_list_state\<lparr>objects := [(7, ())]\<rparr>)) 7 = None
   \<and> snd (object_finalized env_refs heap_foo 7 (gobject_list_state\<lparr>objects := [(7, ())]\<rparr>))
     = gobject_list_state\<lparr>display_flags := DISPLAY_FLAG_REFS, parsed := True\<rparr>
   \<and> removed (snd (object_finalized env_refs heap_foo 7
        (gobject_list_state\<lparr>objects := [(7, ())]\<rparr>))) = []"
  by (simp add: eval_defs)

text \<open>
  C3, as the code has it. An entry of the Removed-Delta is put there by the hook, and its
  type name is the one \<^verbatim>\<open>G_OBJECT_TYPE_NAME\<close> reads from the object while the hook runs:
  every entry found after a run from the initial state matches a hook call of that run and
  the name read in the heap of that call. No creation entry point writes to the
  Removed-Delta, and the other two tables hold no names, so nothing is captured at
  creation.
\<close>

theorem removed_entry_name_read_by_hook:
  "((p, name) \<in> set (removed (snd (run env evs gobject_list_state))) \<longrightarrow>
      (\<exists>h. (h, Object_finalized p) \<in> set evs \<and> name = G_OBJECT_TYPE_NAME h p))
   \<and> removed (snd (object_finalized env h p st)) =
       (if fst (display_filter env DISPLAY_FLAG_CREATE st)
           \<and> g_hash_table_lookup (added st) p = None
        then g_hash_table_insert (removed st) p (G_OBJECT_TYPE_NAME h p)
        else removed st)
   \<and> removed (snd (g_object_new env h p st)) = removed st
   \<and> removed (snd (new_mini_object env h p st)) = removed st
   \<and> removed (snd (gst_mini_object_init env h p st)) = removed st"
proof -
  have "\<exists>h. (h, Object_finalized p) \<in> set evs \<and> name = G_OBJECT_TYPE_NAME h p"
    if "(p, name) \<in> set (removed (snd (run env evs gobject_list_state)))"
    using run_removed_origin [OF that] by (simp add: gobject_list_state_def)
  then show ?thesis
    by (simp add: object_finalized_removed g_object_new_noop new_mini_object_tables
        gst_mini_object_init_tables table_defs)
qed

theorem removed_entry_name_read_by_hook_witness:
  "(7, ''Bar'') \<in> set (removed (snd (run env_default
       [(heap_foo, New_mini_object 7), (heap_foo, Sig_usr2), (heap_bar, Object_finalized 7)]
       gobject_list_state)))
   \<and> (\<exists>h. (h, Object_finalized 7)
          \<in> set [(heap_foo, New_mini_object 7), (heap_foo, Sig_usr2),
                 (heap_bar, Object_finalized 7)]
        \<and> ''Bar'' = G_OBJECT_TYPE_NAME h 7)"
proof -
  have m: "(7, ''Bar'') \<in> set (removed (snd (run env_default
       [(heap_foo, New_mini_object 7), (heap_foo, Sig_usr2), (heap_bar, Object_finalized 7)]
       gobject_list_state)))"
    by (simp add: eval_defs)
  show ?thesis
    using m removed_entry_name_read_by_hook [of 7 "''Bar''" env_default
        "[(heap_foo, New_mini_object 7), (heap_foo, Sig_usr2), (heap_bar, Object_finalized 7)]"
        heap_foo gobject_list_state]
    by blast
qed

text \<open>
  C3, as the claim states it, fails: object 7 is created while its type name reads \<open>Foo\<close>,
  survives a check point, and is finalized while the name reads \<open>Bar\<close>; the entry of the
  Removed-Delta says \<open>Bar\<close>, not the name seen at creation.
\<close>

theorem removed_entry_not_creation_name:
  "G_OBJECT_TYPE_NAME heap_foo 7 = ''Foo''
   \<and> GST_MINI_OBJECT_TYPE_NAME heap_foo 7 = ''Foo''
   \<and> removed (snd (run env_default
       [(heap_foo, New_mini_object 7), (heap_foo, Sig_usr2), (heap_bar, Object_finalized 7)]
       gobject_list_state)) = [(7, ''Bar'')]
   \<and> map_of (removed (snd (run env_default
       [(heap_foo, New_mini_object 7), (heap_foo, Sig_usr2), (heap_bar, Object_finalized 7)]
       gobject_list_state))) 7 \<noteq> Some (GST_MINI_OBJECT_TYPE_NAME heap_foo 7)"
  by (simp add: eval_defs)

text \<open>
  C4. An object created and finalized within one check-point interval should add nothing
  to the Removed-Delta, as the comment of lines 330-331 says. That holds for the first
  firing of the hook after a registration. \<^verbatim>\<open>new_mini_object\<close> registers the hook again
  when it is handed a live identity, so the hook fires twice: object 7 is created twice and
  finalized, with no check point in between; the first firing takes 7 out of the
  Added-Delta, the second finds it absent there and records it, and the check point
  reports 7 as removed.
\<close>

theorem transient_reported_after_second_registration:
  "fst (run env_default [(heap_foo, New_mini_object 7), (heap_foo, New_mini_object 7)]
       gobject_list_state) = [Weak_ref 7, Weak_ref 7]
   \<and> removed (snd (run env_default
        [(heap_foo, New_mini_object 7), (heap_foo, New_mini_object 7),
         (heap_foo, Object_finalized 7)] gobject_list_state)) = []
   \<and> removed (snd (run env_default
        [(heap_foo, New_mini_object 7), (heap_foo, New_mini_object 7),
         (heap_foo, Object_finalized 7), (heap_foo, Object_finalized 7)]
        gobject_list_state)) = [(7, ''Foo'')]
   \<and> fst (sig_usr2_handler heap_foo (snd (run env_default
        [(heap_foo, New_mini_object 7), (heap_foo, New_mini_object 7),
         (heap_foo, Object_finalized 7), (heap_foo, Object_finalized 7)]
        gobject_list_state)))
     = [Msg ''Added Objects:'', Objects_count 0, Msg ''Removed Objects:'',
        Removed_entry 7, Objects_count 1, Msg ''Saved new check point'']"
  by (simp add: eval_defs)

subsection \<open>Invariant of the delta tables\<close>

text \<open>
  C5. The Added-Delta is a subset of the Live Set in every state the tracker reaches from
  its initial state; a call that puts a new identity into the Added-Delta leaves it in the
  Live Set too, and the finalization hook removes the identity from both tables.
\<close>

theorem added_subset_of_live:
  "table_keys (added (snd (run env evs gobject_list_state)))
     \<subseteq> table_keys (objects (snd (run env evs gobject_list_state)))
   \<and> table_keys (added (snd (step env e st))) - table_keys (added st)
     \<subseteq> table_keys (objects (snd (step env e st)))
   \<and> p \<notin> table_keys (objects (snd (object_finalized env h p st)))
   \<and> p \<notin> table_keys (added (snd (object_finalized env h p st)))"
proof -
  have init: "table_keys (added gobject_list_state) \<subseteq> table_keys (objects gobject_list_state)"
    by (simp add: gobject_list_state_def)
  have a: "table_keys (added (snd (run env evs gobject_list_state)))
     \<subseteq> table_keys (objects (snd (run env evs gobject_list_state)))"
    by (rule run_added_subset [OF init])
  have b: "table_keys (added (snd (step env e st))) - table_keys (added st)
     \<subseteq> table_keys (objects (snd (step env e st)))"
  proof (cases e)
    case (Pair h' ev)
    show ?thesis unfolding Pair by (cases ev) (auto simp add: op_keys)
  qed
  have c: "p \<notin> table_keys (objects (snd (object_finalized env h p st)))"
    using op_keys(7) [of env h p st] by simp
  have d: "p \<notin> table_keys (added (snd (object_finalized env h p st)))"
    using op_keys(8) [of env h p st] by simp
  from a b c d show ?thesis by blast
qed

theorem added_subset_of_live_witness:
  "table_keys (added (snd (run env_default
       [(heap_foo, New_mini_object 7), (heap_foo, Sig_usr2), (heap_foo, New_mini_object 9)]
       gobject_list_state)))
     \<subseteq> table_keys (objects (snd (run env_default
       [(heap_foo, New_mini_object 7), (heap_foo, Sig_usr2), (heap_foo, New_mini_object 9)]
       gobject_list_state)))
   \<and> table_keys (added (snd (step env_default (heap_foo, New_mini_object 9)
         (gobject_list_state\<lparr>objects := [(7, ())], added := [(7, ())]\<rparr>))))
       - table_keys (added (gobject_list_state\<lparr>objects := [(7, ())], added := [(7, ())]\<rparr>))
     \<subseteq> table_keys (objects (snd (step env_default (heap_foo, New_mini_object 9)
         (gobject_list_state\<lparr>objects := [(7, ())], added := [(7, ())]\<rparr>))))
   \<and> 7 \<notin> table_keys (objects (snd (object_finalized env_default heap_foo 7
         (gobject_list_state\<lparr>objects := [(7, ())], added := [(7, ())]\<rparr>))))
   \<and> 7 \<notin> table_keys (added (snd (object_finalized env_default heap_foo 7
         (gobject_list_state\<lparr>objects := [(7, ())], added := [(7, ())]\<rparr>))))"
  by (rule added_subset_of_live)

subsection \<open>Check point\<close>




subsection \<open>Creation of an identity that is already live\<close>

text \<open>
  C7. Recording a creation for an identity already in the Live Set should do nothing.
  \<^verbatim>\<open>g_object_new\<close> has the test for that (line 363); \<^verbatim>\<open>new_mini_object\<close> has none.
  Object 7 is created and survives a check point, so it is live and not in the
  Added-Delta; \<^verbatim>\<open>new_mini_object\<close> called with 7 again registers a second observer and
  puts 7 back into the Added-Delta, where \<^verbatim>\<open>g_object_new\<close> changes nothing.
\<close>

theorem new_mini_object_on_live_identity:
  "objects (snd (run env_default [(heap_foo, New_mini_object 7), (heap_foo, Sig_usr2)]
       gobject_list_state)) = [(7, ())]
   \<and> added (snd (run env_default [(heap_foo, New_mini_object 7), (heap_foo, Sig_usr2)]
       gobject_list_state)) = []
   \<and> new_mini_object env_default heap_foo 7
       (snd (run env_default [(heap_foo, New_mini_object 7), (heap_foo, Sig_usr2)]
          gobject_list_state))
     = ([Weak_ref 7],
        (snd (run env_default [(heap_foo, New_mini_object 7), (heap_foo, Sig_usr2)]
          gobject_list_state))\<lparr>added := [(7, ())]\<rparr>)
   \<and> g_object_new env_default heap_foo 7
       (snd (run env_default [(heap_foo, New_mini_object 7), (heap_foo, Sig_usr2)]
          gobject_list_state))
     = ([], snd (run env_default [(heap_foo, New_mini_object 7), (heap_foo, Sig_usr2)]
          gobject_list_state))"
  by (simp add: eval_defs)

subsection \<open>Dump of the Live Set\<close>

text \<open>
  C8. A dump of the Live Set (\<^verbatim>\<open>_sig_usr1_handler\<close>, \<^verbatim>\<open>print_still_alive\<close>) prints one
  line for every entry whose key is not \<^verbatim>\<open>NULL\<close> and whose reference count does not read
  zero, prints nothing for the other entries, goes on with the entries after them, always
  ends with the size of the whole table, and leaves the state as it is.
\<close>

theorem live_dump_skips_unusable_entries:
  "fst (sig_usr1_handler h st) =
     Msg ''Living Objects:''
     # map (\<lambda>(obj, v). Dump_entry obj (ref_count (h obj)))
         (filter (\<lambda>(obj, v). obj \<noteq> NULL \<and> ref_count (h obj) \<noteq> 0) (objects st))
     @ [Objects_count (length (objects st))]
   \<and> snd (sig_usr1_handler h st) = st
   \<and> fst (print_still_alive prgname h st) =
     Msg (''Still Alive in '' @ prgname @ '':'')
     # map (\<lambda>(obj, v). Dump_entry obj (ref_count (h obj)))
         (filter (\<lambda>(obj, v). obj \<noteq> NULL \<and> ref_count (h obj) \<noteq> 0) (objects st))
     @ [Objects_count (length (objects st))]
   \<and> snd (print_still_alive prgname h st) = st
   \<and> (obj = NULL \<or> ref_count (h obj) = 0 \<longrightarrow>
        dump_object_list h (pre @ (obj, v) # post) =
          dump_entries h pre @ dump_entries h post
          @ [Objects_count (length pre + 1 + length post)])"
  by (simp add: sig_usr1_handler_def print_still_alive_def dump_object_list_def
      g_hash_table_size_def dump_entries_filter)

theorem live_dump_skips_unusable_entries_witness:
  "fst (sig_usr1_handler heap_mixed
         (gobject_list_state\<lparr>objects := [(7, ()), (0, ()), (5, ()), (9, ())]\<rparr>))
     = [Msg ''Living Objects:'', Dump_entry 7 2, Dump_entry 9 2, Objects_count 4]
   \<and> dump_object_list heap_mixed ([(7, ())] @ (5, ()) # [(9, ())])
     = [Dump_entry 7 2, Dump_entry 9 2, Objects_count 3]
   \<and> dump_object_list heap_mixed ([(7, ())] @ (NULL, ()) # [(9, ())])
     = [Dump_entry 7 2, Dump_entry 9 2, Objects_count 3]"
proof -
  have z: "5 = NULL \<or> ref_count (heap_mixed 5) = 0"
    by (simp add: heap_mixed_def)
  have n: "NULL = NULL \<or> ref_count (heap_mixed NULL) = 0"
    by simp
  show ?thesis
    using live_dump_skips_unusable_entries [of heap_mixed
        "gobject_list_state\<lparr>objects := [(7, ()), (0, ()), (5, ()), (9, ())]\<rparr>"
        "''prog''" 5 "[(7, ())]" "()" "[(9, ())]"]
      live_dump_skips_unusable_entries [of heap_mixed
        "gobject_list_state\<lparr>objects := [(7, ()), (0, ()), (5, ()), (9, ())]\<rparr>"
        "''prog''" NULL "[(7, ())]" "()" "[(9, ())]"]
      z n
    by (simp add: heap_mixed_def NULL_def)
qed

subsection \<open>Display filter\<close>

text \<open>
  C9, as the code has it. Starting from the initial values of its static variables, the
  Display Filter resolves to the creation category alone when \<^verbatim>\<open>GOBJECT_LIST_DISPLAY\<close>
  is unset or empty, and to the full set when one of the tokens is \<^verbatim>\<open>all\<close> (in any
  case). A token that equals none of the five names of \<^verbatim>\<open>display_flags_map\<close> does not
  change the result as long as the list has another token; a non-empty list clears the
  default first, so a list made of such tokens only resolves to no category. After the
  first call every later call answers from the stored flags, whatever the environment is
  then.
\<close>

theorem display_filter_resolution:
  assumes "\<not> parsed st" and "display_flags st = DISPLAY_FLAG_DEFAULT"
  shows
    "(g_getenv env ''GOBJECT_LIST_DISPLAY'' = None \<longrightarrow>
        display_flags (snd (display_filter env f st)) = DISPLAY_FLAG_CREATE
        \<and> fst (display_filter env DISPLAY_FLAG_CREATE st)
        \<and> \<not> fst (display_filter env DISPLAY_FLAG_REFS st)
        \<and> \<not> fst (display_filter env DISPLAY_FLAG_BACKTRACE st))
     \<and> (g_getenv env ''GOBJECT_LIST_DISPLAY'' = Some [] \<longrightarrow>
        display_flags (snd (display_filter env f st)) = DISPLAY_FLAG_CREATE)
     \<and> (g_getenv env ''GOBJECT_LIST_DISPLAY'' = Some d
        \<and> (\<exists>t\<in>set (g_strsplit d). g_ascii_strcasecmp t ''all'' = 0) \<longrightarrow>
        display_flags (snd (display_filter env f st)) = DISPLAY_FLAG_ALL
        \<and> fst (display_filter env DISPLAY_FLAG_CREATE st)
        \<and> fst (display_filter env DISPLAY_FLAG_REFS st)
        \<and> fst (display_filter env DISPLAY_FLAG_BACKTRACE st))
     \<and> (g_getenv env ''GOBJECT_LIST_DISPLAY'' = Some d
        \<and> g_getenv env2 ''GOBJECT_LIST_DISPLAY'' = Some d2
        \<and> g_strsplit d = pre @ t # post \<and> g_strsplit d2 = pre @ post \<and> pre @ post \<noteq> []
        \<and> (\<forall>(name, flag)\<in>set display_flags_map. g_ascii_strcasecmp t name \<noteq> 0) \<longrightarrow>
        display_flags (snd (display_filter env f st))
          = display_flags (snd (display_filter env2 f st)))
     \<and> (g_getenv env ''GOBJECT_LIST_DISPLAY'' = Some d \<and> d \<noteq> []
        \<and> (\<forall>t\<in>set (g_strsplit d).
              \<forall>(name, flag)\<in>set display_flags_map. g_ascii_strcasecmp t name \<noteq> 0) \<longrightarrow>
        display_flags (snd (display_filter env f st)) = DISPLAY_FLAG_NONE
        \<and> \<not> fst (display_filter env DISPLAY_FLAG_CREATE st)
        \<and> \<not> fst (display_filter env DISPLAY_FLAG_REFS st)
        \<and> \<not> fst (display_filter env DISPLAY_FLAG_BACKTRACE st))
     \<and> display_filter env' f' (snd (display_filter env f st)) =
         (display_flags (snd (display_filter env f st)) AND f' \<noteq> 0,
          snd (display_filter env f st))"
proof -
  have unset: "display_flags (snd (display_filter env g st)) = DISPLAY_FLAG_CREATE"
    if "g_getenv env ''GOBJECT_LIST_DISPLAY'' = None" for g
    using that assms by (simp add: display_filter_first DISPLAY_FLAG_DEFAULT_def)
  have empty: "display_flags (snd (display_filter env f st)) = DISPLAY_FLAG_CREATE"
    if "g_getenv env ''GOBJECT_LIST_DISPLAY'' = Some []"
    using that assms by (simp add: display_filter_first DISPLAY_FLAG_DEFAULT_def g_strsplit_def)
  have all: "display_flags (snd (display_filter env g st)) = DISPLAY_FLAG_ALL"
    if d: "g_getenv env ''GOBJECT_LIST_DISPLAY'' = Some d"
      and t: "\<exists>t\<in>set (g_strsplit d). g_ascii_strcasecmp t ''all'' = 0" for g
  proof -
    from t have ne: "g_strsplit d \<noteq> []" by auto
    have "parse_tokens (g_strsplit d) 0 = DISPLAY_FLAG_ALL"
      using t by (rule parse_tokens_all) simp
    with d ne assms(1) show ?thesis by (simp add: display_filter_first)
  qed
  have skip: "display_flags (snd (display_filter env f st))
          = display_flags (snd (display_filter env2 f st))"
    if d: "g_getenv env ''GOBJECT_LIST_DISPLAY'' = Some d"
      and d2: "g_getenv env2 ''GOBJECT_LIST_DISPLAY'' = Some d2"
      and s: "g_strsplit d = pre @ t # post" and s2: "g_strsplit d2 = pre @ post"
      and ne: "pre @ post \<noteq> []"
      and u: "\<forall>(name, flag)\<in>set display_flags_map. g_ascii_strcasecmp t name \<noteq> 0"
  proof -
    from u have "lookup_flag display_flags_map t = None"
      by (simp add: lookup_flag_None_iff)
    then have "parse_tokens (pre @ t # post) 0 = parse_tokens (pre @ post) 0"
      by (rule parse_tokens_skip)
    moreover have "display_flags (snd (display_filter env f st)) = parse_tokens (pre @ t # post) 0"
      using d s assms(1) by (simp add: display_filter_first)
    moreover have "display_flags (snd (display_filter env2 f st)) = parse_tokens (pre @ post) 0"
      using d2 s2 ne assms(1) by (auto simp add: display_filter_first)
    ultimately show ?thesis by simp
  qed
  have only: "display_flags (snd (display_filter env g st)) = DISPLAY_FLAG_NONE"
    if d: "g_getenv env ''GOBJECT_LIST_DISPLAY'' = Some d" and ne: "d \<noteq> []"
      and u: "\<forall>t\<in>set (g_strsplit d).
              \<forall>(name, flag)\<in>set display_flags_map. g_ascii_strcasecmp t name \<noteq> 0" for g
  proof -
    from ne have "g_strsplit d \<noteq> []"
      by (rule g_strsplit_nonempty)
    moreover from u have "parse_tokens (g_strsplit d) 0 = 0"
      by (rule parse_tokens_unrecognized)
    ultimately show ?thesis
      using d assms(1) by (simp add: display_filter_first DISPLAY_FLAG_NONE_def)
  qed
  have memo: "display_filter env' f' (snd (display_filter env f st)) =
         (display_flags (snd (display_filter env f st)) AND f' \<noteq> 0,
          snd (display_filter env f st))"
    by (rule display_filter_memo) simp
  have p1: "g_getenv env ''GOBJECT_LIST_DISPLAY'' = None \<longrightarrow>
        display_flags (snd (display_filter env f st)) = DISPLAY_FLAG_CREATE
        \<and> fst (display_filter env DISPLAY_FLAG_CREATE st)
        \<and> \<not> fst (display_filter env DISPLAY_FLAG_REFS st)
        \<and> \<not> fst (display_filter env DISPLAY_FLAG_BACKTRACE st)"
    using unset by (simp add: display_filter_fst(1) flag_defs)
  have p2: "g_getenv env ''GOBJECT_LIST_DISPLAY'' = Some d
        \<and> (\<exists>t\<in>set (g_strsplit d). g_ascii_strcasecmp t ''all'' = 0) \<longrightarrow>
        display_flags (snd (display_filter env f st)) = DISPLAY_FLAG_ALL
        \<and> fst (display_filter env DISPLAY_FLAG_CREATE st)
        \<and> fst (display_filter env DISPLAY_FLAG_REFS st)
        \<and> fst (display_filter env DISPLAY_FLAG_BACKTRACE st)"
    using all by (simp add: display_filter_fst(1) flag_defs)
  have p3: "g_getenv env ''GOBJECT_LIST_DISPLAY'' = Some d \<and> d \<noteq> []
        \<and> (\<forall>t\<in>set (g_strsplit d).
              \<forall>(name, flag)\<in>set display_flags_map. g_ascii_strcasecmp t name \<noteq> 0) \<longrightarrow>
        display_flags (snd (display_filter env f st)) = DISPLAY_FLAG_NONE
        \<and> \<not> fst (display_filter env DISPLAY_FLAG_CREATE st)
        \<and> \<not> fst (display_filter env DISPLAY_FLAG_REFS st)
        \<and> \<not> fst (display_filter env DISPLAY_FLAG_BACKTRACE st)"
    using only by (simp add: display_filter_fst(1) flag_defs)
  from p1 empty p2 skip p3 memo show ?thesis by blast
qed

theorem display_filter_resolution_witness:
  "display_flags (snd (display_filter env_default DISPLAY_FLAG_REFS gobject_list_state)) = 1
   \<and> fst (display_filter env_default DISPLAY_FLAG_CREATE gobject_list_state)
   \<and> \<not> fst (display_filter env_default DISPLAY_FLAG_REFS gobject_list_state)
   \<and> display_flags (snd (display_filter env_empty_display DISPLAY_FLAG_REFS gobject_list_state)) = 1
   \<and> display_flags (snd (display_filter env_bogus_all DISPLAY_FLAG_REFS gobject_list_state)) = 13
   \<and> fst (display_filter env_bogus_all DISPLAY_FLAG_BACKTRACE gobject_list_state)
   \<and> display_flags (snd (display_filter env_create_bogus_refs DISPLAY_FLAG_REFS gobject_list_state))
     = display_flags (snd (display_filter env_create_refs DISPLAY_FLAG_REFS gobject_list_state))
   \<and> display_flags (snd (display_filter env_create_bogus_refs DISPLAY_FLAG_REFS gobject_list_state)) = 5
   \<and> display_flags (snd (display_filter env_bogus DISPLAY_FLAG_REFS gobject_list_state)) = 0
   \<and> \<not> fst (display_filter env_bogus DISPLAY_FLAG_CREATE gobject_list_state)
   \<and> display_filter env_bogus_all DISPLAY_FLAG_CREATE
        (snd (display_filter env_default DISPLAY_FLAG_REFS gobject_list_state))
      = (True, snd (display_filter env_default DISPLAY_FLAG_REFS gobject_list_state))"
proof -
  have a: "\<not> parsed gobject_list_state"
    and b: "display_flags gobject_list_state = DISPLAY_FLAG_DEFAULT"
    by (simp_all add: gobject_list_state_def)
  have unset: "g_getenv env_default ''GOBJECT_LIST_DISPLAY'' = None"
    by (simp add: g_getenv_def env_default_def)
  have empty: "g_getenv env_empty_display ''GOBJECT_LIST_DISPLAY'' = Some []"
    by (simp add: g_getenv_def env_empty_display_def)
  have all: "g_getenv env_bogus_all ''GOBJECT_LIST_DISPLAY'' = Some ''bogus,ALL''"
    "\<exists>t\<in>set (g_strsplit ''bogus,ALL''). g_ascii_strcasecmp t ''all'' = 0"
    by (simp_all add: g_getenv_def env_bogus_all_def g_strsplit_def g_ascii_tolower_def)
  have skip: "g_getenv env_create_bogus_refs ''GOBJECT_LIST_DISPLAY'' = Some ''create,bogus,refs''"
    "g_getenv env_create_refs ''GOBJECT_LIST_DISPLAY'' = Some ''create,refs''"
    "g_strsplit ''create,bogus,refs'' = [''create''] @ ''bogus'' # [''refs'']"
    "g_strsplit ''create,refs'' = [''create''] @ [''refs'']"
    "[''create''] @ [''refs''] \<noteq> []"
    by (simp_all add: g_getenv_def env_create_bogus_refs_def env_create_refs_def g_strsplit_def)
  have unknown: "\<forall>(name, flag)\<in>set display_flags_map. g_ascii_strcasecmp ''bogus'' name \<noteq> 0"
    by (simp add: display_flags_map_def g_ascii_tolower_def)
  have only: "g_getenv env_bogus ''GOBJECT_LIST_DISPLAY'' = Some ''bogus''" "''bogus'' \<noteq> []"
    "\<forall>t\<in>set (g_strsplit ''bogus'').
       \<forall>(name, flag)\<in>set display_flags_map. g_ascii_strcasecmp t name \<noteq> 0"
    by (simp_all add: g_getenv_def env_bogus_def g_strsplit_def display_flags_map_def
        g_ascii_tolower_def)
  have val: "display_flags (snd (display_filter env_create_refs DISPLAY_FLAG_REFS
      gobject_list_state)) = 5"
    by (simp add: eval_defs env_create_refs_def)
  note r = display_filter_resolution [OF a b]
  show ?thesis
    using r [of env_default DISPLAY_FLAG_REFS "''x''" env_default "''x''" "[]" "''x''" "[]"
          env_bogus_all DISPLAY_FLAG_CREATE]
      r [of env_empty_display DISPLAY_FLAG_REFS "''x''" env_default "''x''" "[]" "''x''" "[]"
          env_bogus_all DISPLAY_FLAG_CREATE]
      r [of env_bogus_all DISPLAY_FLAG_REFS "''bogus,ALL''" env_default "''x''" "[]" "''x''" "[]"
          env_bogus_all DISPLAY_FLAG_CREATE]
      r [of env_create_bogus_refs DISPLAY_FLAG_REFS "''create,bogus,refs''" env_create_refs
          "''create,refs''" "[''create'']" "''bogus''" "[''refs'']" env_bogus_all DISPLAY_FLAG_CREATE]
      r [of env_bogus DISPLAY_FLAG_REFS "''bogus''" env_default "''x''" "[]" "''x''" "[]"
          env_bogus_all DISPLAY_FLAG_CREATE]
      unset empty all skip unknown only val
    by (simp add: flag_defs)
qed

text \<open>
  C9, as the claim states it, fails: the token \<open>bogus\<close> equals none of the five names, yet
  the configuration \<open>bogus\<close> resolves to no category, where the empty and the unset
  configuration resolve to the creation category.
\<close>

theorem lone_unknown_token_clears_default:
  "g_ascii_strcasecmp ''bogus'' ''none'' \<noteq> 0
   \<and> g_ascii_strcasecmp ''bogus'' ''create'' \<noteq> 0
   \<and> g_ascii_strcasecmp ''bogus'' ''refs'' \<noteq> 0
   \<and> g_ascii_strcasecmp ''bogus'' ''backtrace'' \<noteq> 0
   \<and> g_ascii_strcasecmp ''bogus'' ''all'' \<noteq> 0
   \<and> display_flags (snd (display_filter env_bogus DISPLAY_FLAG_CREATE gobject_list_state))
     = DISPLAY_FLAG_NONE
   \<and> \<not> fst (display_filter env_bogus DISPLAY_FLAG_CREATE gobject_list_state)
   \<and> display_flags (snd (display_filter env_empty_display DISPLAY_FLAG_CREATE gobject_list_state))
     = DISPLAY_FLAG_CREATE
   \<and> fst (display_filter env_empty_display DISPLAY_FLAG_CREATE gobject_list_state)
   \<and> display_flags (snd (display_filter env_default DISPLAY_FLAG_CREATE gobject_list_state))
     = DISPLAY_FLAG_CREATE
   \<and> fst (display_filter env_default DISPLAY_FLAG_CREATE gobject_list_state)"
  by (simp add: eval_defs env_bogus_def env_empty_display_def)

subsection \<open>Frame of the check point\<close>

text \<open>
  C10. A check point leaves the Live Set as it is: \<^verbatim>\<open>_sig_usr2_handler\<close> empties the
  Added-Delta and the Removed-Delta and does not touch \<open>objects\<close>.
\<close>

theorem checkpoint_keeps_live_set:
  "objects (snd (sig_usr2_handler h st)) = objects st
   \<and> added (snd (sig_usr2_handler h st)) = []
   \<and> removed (snd (sig_usr2_handler h st)) = []"
  by (simp add: sig_usr2_handler_tables)

end
